theory Spec2Isabelle
  imports Main "HOL-Library.Word"
begin

section \<open>Values of the Go program\<close>

text \<open>
  The package \<^verbatim>\<open>reverseproxy\<close> (file \<^verbatim>\<open>reverse.go\<close>) wraps
  \<^verbatim>\<open>httputil.ReverseProxy\<close> and adds a CONNECT tunnel. Its functions act on the
  outside world only: connections, the clock, the log. The embedding therefore makes every
  such operation an \<^emph>\<open>event\<close> that records the call and its result, and a handler is the
  list of events it performs, in program order, for given results of the world.
\<close>

text \<open>An \<^verbatim>\<open>error\<close> value is represented by its message; \<^verbatim>\<open>nil\<close> is \<open>None\<close>.\<close>

type_synonym error = string

text \<open>\<^verbatim>\<open>time.Duration\<close> is an \<^verbatim>\<open>int64\<close> count of nanoseconds.\<close>

type_synonym Duration = "64 word"

text \<open>An instant of \<^verbatim>\<open>time.Time\<close>, in nanoseconds on the clock's own axis.\<close>

type_synonym Time = int

definition Nanosecond :: Duration where
  "Nanosecond = 1"

definition Microsecond :: Duration where
  "Microsecond = 1000 * Nanosecond"

definition Millisecond :: Duration where
  "Millisecond = 1000 * Microsecond"

definition Second :: Duration where
  "Second = 1000 * Millisecond"

definition Minute :: Duration where
  "Minute = 60 * Second"

text \<open>\<^verbatim>\<open>const ( defaultTimeout = time.Minute * 5 )\<close>\<close>

definition defaultTimeout :: Duration where
  "defaultTimeout = Minute * 5"

text \<open>
  \<^verbatim>\<open>t.Add(d)\<close>: the instant \<open>t + d\<close>, the duration read as a signed number. A
  \<^verbatim>\<open>time.Time\<close> counts seconds in 64 bits, so a clock reading plus an \<^verbatim>\<open>int64\<close> of
  nanoseconds stays in range and the sum is exact.
\<close>

definition time_Add :: "Time \<Rightarrow> Duration \<Rightarrow> Time" where
  "time_Add t d = t + sint d"

text \<open>The two connections of a tunnel, named as the local variables of \<^verbatim>\<open>ProxyHTTPS\<close>.\<close>

datatype conn = clientConn | proxyConn

text \<open>A \<^verbatim>\<open>*log.Logger\<close>, by identity.\<close>

type_synonym Logger = nat

text \<open>
  The operations the handlers perform. Each carries its arguments and, where the code reads
  one, the \<^verbatim>\<open>error\<close> result. \<open>Copy dst src\<close> is the call of \<^verbatim>\<open>io.Copy(dst, src)\<close>,
  from which relay bytes flow; \<open>CopyReturn dst src err\<close> is its return. \<open>Go\<close> is the
  \<^verbatim>\<open>go\<close> statement. \<open>ForwardServeHTTP\<close> is the call of the embedded
  \<^verbatim>\<open>httputil.ReverseProxy.ServeHTTP\<close>.
\<close>

datatype event =
    ErrorLogPrintf Logger string "error list"
  | LogPrintf string "error list"
  | Hijack "error option"
  | Dial string string "error option"
  | SetDeadline conn Time "error option"
  | Write conn string "error option"
  | Go
  | Copy conn conn
  | CopyReturn conn conn "error option"
  | Close conn
  | ForwardServeHTTP

text \<open>The fields of \<^verbatim>\<open>*http.Request\<close> the package reads: \<^verbatim>\<open>req.Method\<close> and \<^verbatim>\<open>req.URL.Host\<close>.\<close>

record Request =
  Method :: string
  Host :: string

text \<open>
  The \<^verbatim>\<open>http.ResponseWriter\<close>: either its dynamic type does not implement
  \<^verbatim>\<open>http.Hijacker\<close>, or it does and \<^verbatim>\<open>Hijack()\<close> returns the given error (or none).
\<close>

datatype ResponseWriter = NoHijacker | Hijacker "error option"

text \<open>
  \<^verbatim>\<open>*http.Transport\<close> values live in a store, since \<^verbatim>\<open>http.DefaultTransport\<close> is shared
  by pointer. A \<^verbatim>\<open>*tls.Config\<close> is known by identity.
\<close>

type_synonym addr = nat



text \<open>
  A value of the interface \<^verbatim>\<open>http.RoundTripper\<close>: a \<^verbatim>\<open>*http.Transport\<close> (a pointer
  into the store) or a value of some other dynamic type.
\<close>

datatype RoundTripper = TransportPtr addr | OtherRoundTripper nat

record httputil_ReverseProxy =
  Transport :: "RoundTripper option"
  ErrorLog :: "Logger option"

text \<open>\<^verbatim>\<open>type ReverseProxy struct { Timeout time.Duration; *httputil.ReverseProxy }\<close>\<close>

record ReverseProxy =
  Timeout :: Duration
  embedded :: httputil_ReverseProxy

text \<open>
  What the world answers to the calls of one session. Each call is made at most once in a
  session, so one result per call: the reading of \<^verbatim>\<open>time.Now()\<close>, and the
  \<^verbatim>\<open>error\<close> results of \<^verbatim>\<open>net.Dial\<close>, of \<^verbatim>\<open>SetDeadline\<close> and \<^verbatim>\<open>Write\<close> on
  each connection, and of the two \<^verbatim>\<open>io.Copy\<close> calls (named by their destination).
\<close>

record world =
  Now :: Time
  Dial_err :: "error option"
  clientConn_SetDeadline_err :: "error option"
  proxyConn_SetDeadline_err :: "error option"
  clientConn_Write_err :: "error option"
  Copy_to_clientConn_err :: "error option"
  Copy_to_proxyConn_err :: "error option"

section \<open>The handlers\<close>

text \<open>
  A handler yields the operations of the calling task, in order, and those of the task it
  spawns (none when no \<^verbatim>\<open>go\<close> statement is reached). The calling task's list ends where
  the handler returns.
\<close>

type_synonym tasks = "event list \<times> event list"

definition return :: tasks where
  "return = ([], [])"

fun emit :: "event \<Rightarrow> tasks \<Rightarrow> tasks" where
  "emit e (m, g) = (e # m, g)"

fun spawn :: "event list \<Rightarrow> tasks \<Rightarrow> tasks" where
  "spawn body (m, g) = (Go # m, body)"

text \<open>
  \<^verbatim>\<open>
  func (p *ReverseProxy) logf(format string, args ...interface{}) {
      if p.ErrorLog != nil { p.ErrorLog.Printf(format, args...) }
      else { log.Printf(format, args...) }
  }
  \<close>
\<close>

definition logf :: "ReverseProxy \<Rightarrow> string \<Rightarrow> error list \<Rightarrow> event" where
  "logf p format args =
     (case ErrorLog (embedded p) of
        Some l \<Rightarrow> ErrorLogPrintf l format args
      | None \<Rightarrow> LogPrintf format args)"

definition ProxyHTTP :: "ReverseProxy \<Rightarrow> ResponseWriter \<Rightarrow> Request \<Rightarrow> world \<Rightarrow> tasks" where
  "ProxyHTTP p rw req w = emit ForwardServeHTTP return"

text \<open>The bytes of \<^verbatim>\<open>"HTTP/1.0 200 OK\r\n\r\n"\<close>.\<close>

definition handshake :: string where
  "handshake = ''HTTP/1.0 200 OK'' @ [CHR 0x0D, CHR 0x0A, CHR 0x0D, CHR 0x0A]"

text \<open>
  \<^verbatim>\<open>ProxyHTTPS\<close>, statement by statement: the type assertion to \<^verbatim>\<open>http.Hijacker\<close>,
  \<^verbatim>\<open>Hijack\<close>, \<^verbatim>\<open>net.Dial("tcp", req.URL.Host)\<close>, the deadline, the two
  \<^verbatim>\<open>SetDeadline\<close> calls, the \<^verbatim>\<open>Write\<close> of the status line, the \<^verbatim>\<open>go\<close> statement
  with its body, and the copy of the calling task. Every \<^verbatim>\<open>if err != nil\<close> logs and
  returns; the results of \<^verbatim>\<open>io.Copy\<close> and \<^verbatim>\<open>Close\<close> are not read.
\<close>

definition ProxyHTTPS :: "ReverseProxy \<Rightarrow> ResponseWriter \<Rightarrow> Request \<Rightarrow> world \<Rightarrow> tasks" where
  "ProxyHTTPS p rw req w =
     (case rw of
        NoHijacker \<Rightarrow> emit (logf p ''http server does not support hijacker'' []) return
      | Hijacker hij \<Rightarrow>
     emit (Hijack hij)
     (case hij of
        Some err \<Rightarrow> emit (logf p ''http: proxy error: %v'' [err]) return
      | None \<Rightarrow>
     emit (Dial ''tcp'' (Host req) (Dial_err w))
     (case Dial_err w of
        Some err \<Rightarrow> emit (logf p ''http: proxy error: %v'' [err]) return
      | None \<Rightarrow>
     (let deadline = Now w;
          deadline = (if Timeout p = 0 then time_Add deadline defaultTimeout
                      else time_Add deadline (Timeout p))
      in
     emit (SetDeadline clientConn deadline (clientConn_SetDeadline_err w))
     (case clientConn_SetDeadline_err w of
        Some err \<Rightarrow> emit (logf p ''http: proxy error: %v'' [err]) return
      | None \<Rightarrow>
     emit (SetDeadline proxyConn deadline (proxyConn_SetDeadline_err w))
     (case proxyConn_SetDeadline_err w of
        Some err \<Rightarrow> emit (logf p ''http: proxy error: %v'' [err]) return
      | None \<Rightarrow>
     emit (Write clientConn handshake (clientConn_Write_err w))
     (case clientConn_Write_err w of
        Some err \<Rightarrow> emit (logf p ''http: proxy error: %v'' [err]) return
      | None \<Rightarrow>
     spawn [Copy clientConn proxyConn,
            CopyReturn clientConn proxyConn (Copy_to_clientConn_err w),
            Close clientConn,
            Close proxyConn]
     (emit (Copy proxyConn clientConn)
     (emit (CopyReturn proxyConn clientConn (Copy_to_proxyConn_err w))
     (emit (Close proxyConn)
     (emit (Close clientConn)
      return)))))))))))"

text \<open>
  \<^verbatim>\<open>
  func (p *ReverseProxy) ServeHTTP(rw http.ResponseWriter, req *http.Request) {
      if req.Method == "CONNECT" { p.ProxyHTTPS(rw, req) } else { p.ProxyHTTP(rw, req) }
  }
  \<close>
\<close>

definition ServeHTTP :: "ReverseProxy \<Rightarrow> ResponseWriter \<Rightarrow> Request \<Rightarrow> world \<Rightarrow> tasks" where
  "ServeHTTP p rw req w =
     (if Method req = ''CONNECT'' then ProxyHTTPS p rw req w else ProxyHTTP p rw req w)"

section \<open>The constructor and the shared default transport\<close>






section \<open>Runs of a session and the life of a connection\<close>

text \<open>
  The runs of a session: the calling task's operations up to the \<^verbatim>\<open>go\<close> statement,
  then every interleaving of the rest of the calling task with the spawned task. A run is a
  complete execution: both copies have returned.
\<close>

fun runs_of :: "event list \<Rightarrow> event list \<Rightarrow> event list set" where
  "runs_of [] g = {[]}"
| "runs_of (e # m) g = (if e = Go then (#) Go ` shuffles m g else (#) e ` runs_of m g)"

definition session_runs :: "tasks \<Rightarrow> event list set" where
  "session_runs t = runs_of (fst t) (snd t)"

text \<open>
  A connection does not exist before \<^verbatim>\<open>Hijack\<close> (the client's) or \<^verbatim>\<open>net.Dial\<close> (the
  upstream's) succeeds, is open from then on, and is closed by the first \<^verbatim>\<open>Close\<close>; a
  later \<^verbatim>\<open>Close\<close> leaves it closed.
\<close>

datatype conn_state = Unopened | Open | Closed

fun conn_step :: "conn \<Rightarrow> conn_state \<Rightarrow> event \<Rightarrow> conn_state" where
  "conn_step c s (Hijack None) = (if c = clientConn \<and> s = Unopened then Open else s)"
| "conn_step c s (Dial n a None) = (if c = proxyConn \<and> s = Unopened then Open else s)"
| "conn_step c s (Close c') = (if c' = c \<and> s = Open then Closed else s)"
| "conn_step c s e = s"

definition conn_state_after :: "conn \<Rightarrow> event list \<Rightarrow> conn_state" where
  "conn_state_after c tr = foldl (conn_step c) Unopened tr"

text \<open>How many times a connection goes from open to closed along a trace.\<close>

fun closings :: "conn \<Rightarrow> conn_state \<Rightarrow> event list \<Rightarrow> nat" where
  "closings c s [] = 0"
| "closings c s (e # es) =
     (if s = Open \<and> conn_step c s e = Closed then 1 else 0) + closings c (conn_step c s e) es"

text \<open>Every return of a copy is followed, later in the trace, by a \<^verbatim>\<open>Close\<close> of both connections.\<close>

fun closes_follow :: "event list \<Rightarrow> bool" where
  "closes_follow [] = True"
| "closes_follow (CopyReturn d s r # es) =
     (Close clientConn \<in> set es \<and> Close proxyConn \<in> set es \<and> closes_follow es)"
| "closes_follow (e # es) = closes_follow es"

fun is_log :: "event \<Rightarrow> bool" where
  "is_log (ErrorLogPrintf l f a) = True"
| "is_log (LogPrintf f a) = True"
| "is_log e = False"

fun is_Write :: "event \<Rightarrow> bool" where
  "is_Write (Write c b r) = True"
| "is_Write e = False"

fun is_Dial :: "event \<Rightarrow> bool" where
  "is_Dial (Dial n a r) = True"
| "is_Dial e = False"

fun is_Copy :: "event \<Rightarrow> bool" where
  "is_Copy (Copy d s) = True"
| "is_Copy e = False"

text \<open>
  A session reaches the relay phase when the writer can be hijacked and \<^verbatim>\<open>Hijack\<close>,
  \<^verbatim>\<open>net.Dial\<close>, both \<^verbatim>\<open>SetDeadline\<close> calls and the \<^verbatim>\<open>Write\<close> return no error.
\<close>

definition established :: "ResponseWriter \<Rightarrow> world \<Rightarrow> bool" where
  "established rw w =
     (rw = Hijacker None \<and> Dial_err w = None \<and> clientConn_SetDeadline_err w = None \<and>
      proxyConn_SetDeadline_err w = None \<and> clientConn_Write_err w = None)"

section \<open>Concrete sessions\<close>

text \<open>
  A proxy as \<^verbatim>\<open>NewReverseProxy\<close> builds it (no timeout set, no error log), a CONNECT
  request, and a world in which every call succeeds at time 1000.
\<close>

definition example_proxy :: ReverseProxy where
  "example_proxy =
     \<lparr>Timeout = 0, embedded = \<lparr>Transport = Some (TransportPtr 0), ErrorLog = None\<rparr>\<rparr>"

definition example_request :: Request where
  "example_request = \<lparr>Method = ''CONNECT'', Host = ''example.org:443''\<rparr>"

definition quiet_world :: world where
  "quiet_world =
     \<lparr>Now = 1000, Dial_err = None, clientConn_SetDeadline_err = None,
      proxyConn_SetDeadline_err = None, clientConn_Write_err = None,
      Copy_to_clientConn_err = None, Copy_to_proxyConn_err = None\<rparr>"


text \<open>
  The run of an established session in which the calling task finishes before the spawned
  task starts, for the deadline and the copy results given.
\<close>

definition sequential_run :: "string \<Rightarrow> Time \<Rightarrow> error option \<Rightarrow> error option \<Rightarrow> event list" where
  "sequential_run host deadline to_proxy to_client =
     [Hijack None, Dial ''tcp'' host None,
      SetDeadline clientConn deadline None, SetDeadline proxyConn deadline None,
      Write clientConn handshake None, Go,
      Copy proxyConn clientConn, CopyReturn proxyConn clientConn to_proxy,
      Close proxyConn, Close clientConn,
      Copy clientConn proxyConn, CopyReturn clientConn proxyConn to_client,
      Close clientConn, Close proxyConn]"

section \<open>Interleavings, runs and connection states\<close>

lemma set_runs_of: "run \<in> runs_of m g \<Longrightarrow> set run \<subseteq> set m \<union> set g"
proof (induction m arbitrary: run)
  case Nil
  then show ?case by simp
next
  case (Cons e m)
  show ?case
  proof (cases "e = Go")
    case True
    with Cons.prems obtain zs where "zs \<in> shuffles m g" "run = Go # zs" by auto
    then show ?thesis using True set_shuffles [of zs m g] by auto
  next
    case False
    with Cons.prems obtain r where "r \<in> runs_of m g" "run = e # r" by auto
    then show ?thesis using Cons.IH [of r] by auto
  qed
qed

lemma conn_step_Closed: "conn_step c Closed e = Closed"
  by (cases "(c, Closed, e)" rule: conn_step.cases) auto

lemma conn_step_Open: "conn_step c Open e = (if e = Close c then Closed else Open)"
  by (cases "(c, Open, e)" rule: conn_step.cases) auto

lemma closings_Closed: "closings c Closed es = 0"
  by (induction es) (simp_all add: conn_step_Closed)

lemma closings_Open: "closings c Open es = (if Close c \<in> set es then 1 else 0)"
  by (induction es) (auto simp add: conn_step_Open closings_Closed)

lemma foldl_conn_step_Closed: "foldl (conn_step c) Closed es = Closed"
  by (induction es) (simp_all add: conn_step_Closed)

lemma foldl_conn_step_Open:
  "foldl (conn_step c) Open es = (if Close c \<in> set es then Closed else Open)"
  by (induction es) (auto simp add: conn_step_Open foldl_conn_step_Closed)

lemma closes_follow_Cons:
  "closes_follow (e # es) =
     ((case e of CopyReturn d s r \<Rightarrow> Close clientConn \<in> set es \<and> Close proxyConn \<in> set es
       | _ \<Rightarrow> True) \<and> closes_follow es)"
  by (cases e) simp_all

lemma closes_follow_mono:
  "closes_follow (e # es) \<Longrightarrow> set es \<subseteq> set zs \<Longrightarrow> closes_follow zs \<Longrightarrow> closes_follow (e # zs)"
  by (cases e) auto

lemma closes_follow_tl: "closes_follow (e # es) \<Longrightarrow> closes_follow es"
  by (cases e) auto

lemma closes_follow_shuffles:
  "zs \<in> shuffles xs ys \<Longrightarrow> closes_follow xs \<Longrightarrow> closes_follow ys \<Longrightarrow> closes_follow zs"
proof (induction xs ys arbitrary: zs rule: shuffles.induct)
  case (1 ys)
  then show ?case by simp
next
  case (2 xs)
  then show ?case by simp
next
  case (3 x xs y ys)
  from "3.prems"(1) consider
      (left) zs' where "zs = x # zs'" "zs' \<in> shuffles xs (y # ys)"
    | (right) zs' where "zs = y # zs'" "zs' \<in> shuffles (x # xs) ys"
    by auto
  then show ?case
  proof cases
    case left
    have "closes_follow zs'"
      using "3.IH"(1) [OF left(2)] "3.prems" closes_follow_tl by blast
    moreover have "set xs \<subseteq> set zs'"
      using set_shuffles [OF left(2)] by auto
    ultimately show ?thesis
      using left(1) "3.prems"(2) closes_follow_mono by blast
  next
    case right
    have "closes_follow zs'"
      using "3.IH"(2) [OF right(2)] "3.prems" closes_follow_tl by blast
    moreover have "set ys \<subseteq> set zs'"
      using set_shuffles [OF right(2)] by auto
    ultimately show ?thesis
      using right(1) "3.prems"(3) closes_follow_mono by blast
  qed
qed


lemma set_session_runs: "run \<in> session_runs t \<Longrightarrow> set run \<subseteq> set (fst t) \<union> set (snd t)"
  using set_runs_of [of run "fst t" "snd t"] by (simp add: session_runs_def)

lemmas ProxyHTTPS_unfold = ProxyHTTPS_def Let_def return_def logf_def

lemma relay_reached:
  assumes "run \<in> session_runs (ProxyHTTPS p rw req w)"
    and "e \<in> set run"
    and "e = Go \<or> e = Copy d s \<or> e = CopyReturn d s r \<or> e = Close c"
  shows "established rw w"
proof -
  have "e \<in> set (fst (ProxyHTTPS p rw req w)) \<union> set (snd (ProxyHTTPS p rw req w))"
    using set_session_runs [OF assms(1)] assms(2) by blast
  then show ?thesis
    using assms(3)
    by (auto simp add: ProxyHTTPS_unfold established_def
        split: ResponseWriter.splits option.splits)
qed

lemma session_runs_established:
  assumes "established rw w"
  shows "session_runs (ProxyHTTPS p rw req w) =
    (\<lambda>zs. [Hijack None, Dial ''tcp'' (Host req) None,
            SetDeadline clientConn
              (time_Add (Now w) (if Timeout p = 0 then defaultTimeout else Timeout p)) None,
            SetDeadline proxyConn
              (time_Add (Now w) (if Timeout p = 0 then defaultTimeout else Timeout p)) None,
            Write clientConn handshake None, Go] @ zs) `
      shuffles
        [Copy proxyConn clientConn, CopyReturn proxyConn clientConn (Copy_to_proxyConn_err w),
         Close proxyConn, Close clientConn]
        [Copy clientConn proxyConn, CopyReturn clientConn proxyConn (Copy_to_clientConn_err w),
         Close clientConn, Close proxyConn]"
  using assms
  by (simp add: ProxyHTTPS_def session_runs_def Let_def return_def image_image established_def
      del: shuffles.simps)

lemma sequential_run_in_shuffles: "xs @ ys \<in> shuffles xs ys"
  by (induction xs) (simp_all add: Cons_in_shuffles_leftI)

lemma sequential_run_is_run:
  assumes "established rw w"
  shows "sequential_run (Host req)
           (time_Add (Now w) (if Timeout p = 0 then defaultTimeout else Timeout p))
           (Copy_to_proxyConn_err w) (Copy_to_clientConn_err w)
         \<in> session_runs (ProxyHTTPS p rw req w)"
proof -
  let ?a = "[Copy proxyConn clientConn, CopyReturn proxyConn clientConn (Copy_to_proxyConn_err w),
         Close proxyConn, Close clientConn]"
  let ?b = "[Copy clientConn proxyConn, CopyReturn clientConn proxyConn (Copy_to_clientConn_err w),
         Close clientConn, Close proxyConn]"
  have "?a @ ?b \<in> shuffles ?a ?b" by (rule sequential_run_in_shuffles)
  then show ?thesis
    unfolding session_runs_established [OF assms] sequential_run_def
    by (intro image_eqI [where x = "?a @ ?b"]) simp_all
qed

lemma length_filter_shuffles:
  assumes "zs \<in> shuffles xs ys"
  shows "length (filter P zs) = length (filter P xs) + length (filter P ys)"
proof -
  have "filter P zs \<in> filter P ` shuffles xs ys" using assms by blast
  then have "filter P zs \<in> shuffles (filter P xs) (filter P ys)"
    by (simp only: filter_shuffles)
  then show ?thesis by (rule length_shuffles)
qed

lemma count_list_shuffles:
  "zs \<in> shuffles xs ys \<Longrightarrow> count_list zs x = count_list xs x + count_list ys x"
  by (induction xs ys arbitrary: zs rule: shuffles.induct) auto

lemma run_established:
  assumes "established rw w" and "run \<in> session_runs (ProxyHTTPS p rw req w)"
  obtains zs where
    "zs \<in> shuffles
        [Copy proxyConn clientConn, CopyReturn proxyConn clientConn (Copy_to_proxyConn_err w),
         Close proxyConn, Close clientConn]
        [Copy clientConn proxyConn, CopyReturn clientConn proxyConn (Copy_to_clientConn_err w),
         Close clientConn, Close proxyConn]"
    and "run = [Hijack None, Dial ''tcp'' (Host req) None,
            SetDeadline clientConn
              (time_Add (Now w) (if Timeout p = 0 then defaultTimeout else Timeout p)) None,
            SetDeadline proxyConn
              (time_Add (Now w) (if Timeout p = 0 then defaultTimeout else Timeout p)) None,
            Write clientConn handshake None, Go] @ zs"
  using assms(2) unfolding session_runs_established [OF assms(1)] by blast

lemma relay_events:
  assumes "zs \<in> shuffles
        [Copy proxyConn clientConn, CopyReturn proxyConn clientConn a,
         Close proxyConn, Close clientConn]
        [Copy clientConn proxyConn, CopyReturn clientConn proxyConn b,
         Close clientConn, Close proxyConn]"
  shows "set zs = {Copy proxyConn clientConn, CopyReturn proxyConn clientConn a,
         Close proxyConn, Close clientConn, Copy clientConn proxyConn,
         CopyReturn clientConn proxyConn b}"
  using set_shuffles [OF assms] by auto

lemma example_established: "established (Hijacker None) quiet_world"
  by (simp add: established_def quiet_world_def)

lemma defaultTimeout_ns: "sint defaultTimeout = 300000000000"
  by (simp add: defaultTimeout_def Minute_def Second_def Millisecond_def Microsecond_def
      Nanosecond_def)

lemma example_run:
  "sequential_run ''example.org:443'' 300000001000 None None
     \<in> session_runs (ProxyHTTPS example_proxy (Hijacker None) example_request quiet_world)"
  using sequential_run_is_run [OF example_established, of example_request example_proxy]
  by (simp add: example_request_def example_proxy_def quiet_world_def time_Add_def
      defaultTimeout_ns)

lemma SetDeadline_value:
  assumes "run \<in> session_runs (ProxyHTTPS p rw req w)"
    and "SetDeadline c t r \<in> set run"
  shows "t = time_Add (Now w) (if Timeout p = 0 then defaultTimeout else Timeout p)"
proof -
  have "SetDeadline c t r \<in> set (fst (ProxyHTTPS p rw req w)) \<union> set (snd (ProxyHTTPS p rw req w))"
    using set_session_runs [OF assms(1)] assms(2) by blast
  then show ?thesis
    by (auto simp add: ProxyHTTPS_unfold split: ResponseWriter.splits option.splits if_splits)
qed

lemma run_not_established:
  assumes "run \<in> session_runs (ProxyHTTPS p rw req w)" and "\<not> established rw w"
  shows "run = fst (ProxyHTTPS p rw req w)"
  using assms
  by (auto simp add: ProxyHTTPS_unfold session_runs_def established_def
      split: ResponseWriter.splits option.splits)

lemma set_run:
  assumes "run \<in> session_runs (ProxyHTTPS p rw req w)"
  shows "set run = set (fst (ProxyHTTPS p rw req w)) \<union> set (snd (ProxyHTTPS p rw req w))"
proof (cases "established rw w")
  case True
  from run_established [OF True assms] obtain zs where
    zs: "zs \<in> shuffles
        [Copy proxyConn clientConn, CopyReturn proxyConn clientConn (Copy_to_proxyConn_err w),
         Close proxyConn, Close clientConn]
        [Copy clientConn proxyConn, CopyReturn clientConn proxyConn (Copy_to_clientConn_err w),
         Close clientConn, Close proxyConn]"
    and run: "run = [Hijack None, Dial ''tcp'' (Host req) None,
            SetDeadline clientConn
              (time_Add (Now w) (if Timeout p = 0 then defaultTimeout else Timeout p)) None,
            SetDeadline proxyConn
              (time_Add (Now w) (if Timeout p = 0 then defaultTimeout else Timeout p)) None,
            Write clientConn handshake None, Go] @ zs"
    by blast
  show ?thesis
    using True unfolding run
    by (auto simp add: relay_events [OF zs] ProxyHTTPS_def Let_def return_def established_def)
next
  case False
  have "snd (ProxyHTTPS p rw req w) = []"
    using False
    by (auto simp add: ProxyHTTPS_unfold established_def
        split: ResponseWriter.splits option.splits)
  then show ?thesis
    using run_not_established [OF assms False] by simp
qed

lemma client_deadline_set:
  assumes "Dial n a None \<in> set (fst (ProxyHTTPS p rw req w)) \<union> set (snd (ProxyHTTPS p rw req w))"
  shows "SetDeadline clientConn
           (time_Add (Now w) (if Timeout p = 0 then defaultTimeout else Timeout p))
           (clientConn_SetDeadline_err w)
         \<in> set (fst (ProxyHTTPS p rw req w)) \<union> set (snd (ProxyHTTPS p rw req w))"
  using assms
  by (auto simp add: ProxyHTTPS_unfold split: ResponseWriter.splits option.splits if_splits)

lemma proxy_deadline_set:
  assumes "SetDeadline clientConn t None
             \<in> set (fst (ProxyHTTPS p rw req w)) \<union> set (snd (ProxyHTTPS p rw req w))"
  shows "SetDeadline proxyConn t (proxyConn_SetDeadline_err w)
         \<in> set (fst (ProxyHTTPS p rw req w)) \<union> set (snd (ProxyHTTPS p rw req w))"
  using assms
  by (auto simp add: ProxyHTTPS_unfold split: ResponseWriter.splits option.splits if_splits)

lemma client_deadline_applied:
  assumes "rw = Hijacker None" and "Dial_err w = None"
  shows "SetDeadline clientConn
           (time_Add (Now w) (if Timeout p = 0 then defaultTimeout else Timeout p))
           (clientConn_SetDeadline_err w)
         \<in> set (fst (ProxyHTTPS p rw req w)) \<union> set (snd (ProxyHTTPS p rw req w))"
  using assms by (simp add: ProxyHTTPS_unfold split: option.splits)

lemma proxy_deadline_applied:
  assumes "rw = Hijacker None" and "Dial_err w = None" and "clientConn_SetDeadline_err w = None"
  shows "SetDeadline proxyConn
           (time_Add (Now w) (if Timeout p = 0 then defaultTimeout else Timeout p))
           (proxyConn_SetDeadline_err w)
         \<in> set (fst (ProxyHTTPS p rw req w)) \<union> set (snd (ProxyHTTPS p rw req w))"
  using assms by (simp add: ProxyHTTPS_unfold split: option.splits)

lemma tasks_established:
  assumes "established rw w"
  shows "ProxyHTTPS p rw req w =
    ([Hijack None, Dial ''tcp'' (Host req) None,
      SetDeadline clientConn
        (time_Add (Now w) (if Timeout p = 0 then defaultTimeout else Timeout p)) None,
      SetDeadline proxyConn
        (time_Add (Now w) (if Timeout p = 0 then defaultTimeout else Timeout p)) None,
      Write clientConn handshake None] @
     [Go, Copy proxyConn clientConn, CopyReturn proxyConn clientConn (Copy_to_proxyConn_err w),
      Close proxyConn, Close clientConn],
     [Copy clientConn proxyConn, CopyReturn clientConn proxyConn (Copy_to_clientConn_err w),
      Close clientConn, Close proxyConn])"
  using assms by (simp add: ProxyHTTPS_def Let_def return_def established_def)

lemma negative_run:
  "sequential_run ''example.org:443'' (-2000) None None
     \<in> session_runs (ProxyHTTPS (example_proxy\<lparr>Timeout := - 3000\<rparr>) (Hijacker None)
          example_request quiet_world)"
  using sequential_run_is_run [OF example_established, of example_request
      "example_proxy\<lparr>Timeout := - 3000\<rparr>"]
  by (simp add: example_request_def example_proxy_def quiet_world_def time_Add_def)

section \<open>Establishment failures\<close>

text \<open>
  Once a session is not established, no \<^verbatim>\<open>Close\<close> is ever called: each
  \<^verbatim>\<open>if err != nil\<close> branch of \<^verbatim>\<open>ProxyHTTPS\<close> logs and returns, and the only
  \<^verbatim>\<open>Close\<close> calls are those after the two copies. A hijacked client connection, and
  a dialed upstream connection, is therefore still open when the handler returns.
\<close>

lemma failed_establishment_never_closes:
  assumes "run \<in> session_runs (ProxyHTTPS p rw req w)" and "\<not> established rw w"
  shows "Close c \<notin> set run"
  using relay_reached [OF assms(1), of "Close c" c c None c] assms(2) by blast

lemma hijacked_and_failed_stays_open:
  assumes "run \<in> session_runs (ProxyHTTPS p rw req w)" and "\<not> established rw w"
    and "Hijack None \<in> set run"
  shows "conn_state_after clientConn run = Open"
proof -
  have "run = fst (ProxyHTTPS p rw req w)"
    using run_not_established [OF assms(1,2)] .
  then show ?thesis
    using assms(2,3)
    by (auto simp add: ProxyHTTPS_unfold conn_state_after_def established_def
        split: ResponseWriter.splits option.splits)
qed

lemma dialed_and_failed_stays_open:
  assumes "run \<in> session_runs (ProxyHTTPS p rw req w)" and "\<not> established rw w"
    and "Dial n a None \<in> set run"
  shows "conn_state_after proxyConn run = Open"
proof -
  have "run = fst (ProxyHTTPS p rw req w)"
    using run_not_established [OF assms(1,2)] .
  then show ?thesis
    using assms(2,3)
    by (auto simp add: ProxyHTTPS_unfold conn_state_after_def established_def
        split: ResponseWriter.splits option.splits)
qed

text \<open>
  C1. The specification asks that a hijacked client connection be closed before the handler
  returns when the dial fails. The code does not: with \<^verbatim>\<open>Hijack\<close> succeeding and
  \<^verbatim>\<open>net.Dial\<close> returning "connection refused", the only run of the session is hijack,
  dial, log, and the client connection is open after it.
\<close>

theorem dial_failure_leaves_clientConn_open:
  "session_runs (ProxyHTTPS example_proxy (Hijacker None) example_request
      (quiet_world\<lparr>Dial_err := Some ''connection refused''\<rparr>)) =
     {[Hijack None, Dial ''tcp'' ''example.org:443'' (Some ''connection refused''),
       LogPrintf ''http: proxy error: %v'' [''connection refused'']]} \<and>
   conn_state_after clientConn
     [Hijack None, Dial ''tcp'' ''example.org:443'' (Some ''connection refused''),
      LogPrintf ''http: proxy error: %v'' [''connection refused'']] = Open"
  by (simp add: ProxyHTTPS_unfold session_runs_def conn_state_after_def example_proxy_def
      example_request_def quiet_world_def)

text \<open>
  C2. The specification asks that both connections be closed when a \<^verbatim>\<open>SetDeadline\<close>
  or the \<^verbatim>\<open>Write\<close> of the status line fails. The code does not: when
  \<^verbatim>\<open>clientConn.SetDeadline\<close> fails, and likewise when \<^verbatim>\<open>clientConn.Write\<close> fails, the
  run ends with the log call and both connections are open after it.
\<close>

theorem establishment_failure_leaves_connections_open:
  "session_runs (ProxyHTTPS example_proxy (Hijacker None) example_request
      (quiet_world\<lparr>clientConn_SetDeadline_err := Some ''use of closed network connection''\<rparr>)) =
     {[Hijack None, Dial ''tcp'' ''example.org:443'' None,
       SetDeadline clientConn 300000001000 (Some ''use of closed network connection''),
       LogPrintf ''http: proxy error: %v'' [''use of closed network connection'']]} \<and>
   conn_state_after clientConn
     [Hijack None, Dial ''tcp'' ''example.org:443'' None,
      SetDeadline clientConn 300000001000 (Some ''use of closed network connection''),
      LogPrintf ''http: proxy error: %v'' [''use of closed network connection'']] = Open \<and>
   conn_state_after proxyConn
     [Hijack None, Dial ''tcp'' ''example.org:443'' None,
      SetDeadline clientConn 300000001000 (Some ''use of closed network connection''),
      LogPrintf ''http: proxy error: %v'' [''use of closed network connection'']] = Open \<and>
   session_runs (ProxyHTTPS example_proxy (Hijacker None) example_request
      (quiet_world\<lparr>clientConn_Write_err := Some ''broken pipe''\<rparr>)) =
     {[Hijack None, Dial ''tcp'' ''example.org:443'' None,
       SetDeadline clientConn 300000001000 None, SetDeadline proxyConn 300000001000 None,
       Write clientConn handshake (Some ''broken pipe''),
       LogPrintf ''http: proxy error: %v'' [''broken pipe'']]} \<and>
   conn_state_after clientConn
     [Hijack None, Dial ''tcp'' ''example.org:443'' None,
      SetDeadline clientConn 300000001000 None, SetDeadline proxyConn 300000001000 None,
      Write clientConn handshake (Some ''broken pipe''),
      LogPrintf ''http: proxy error: %v'' [''broken pipe'']] = Open \<and>
   conn_state_after proxyConn
     [Hijack None, Dial ''tcp'' ''example.org:443'' None,
      SetDeadline clientConn 300000001000 None, SetDeadline proxyConn 300000001000 None,
      Write clientConn handshake (Some ''broken pipe''),
      LogPrintf ''http: proxy error: %v'' [''broken pipe'']] = Open"
  by (simp add: ProxyHTTPS_unfold session_runs_def conn_state_after_def example_proxy_def
      example_request_def quiet_world_def time_Add_def defaultTimeout_ns)

section \<open>The dispatcher\<close>

lemma ProxyHTTPS_not_forward: "ForwardServeHTTP \<notin> set (fst (ProxyHTTPS p rw req w))"
  by (simp add: ProxyHTTPS_def return_def logf_def Let_def
      split: ResponseWriter.split option.split)

lemma ProxyHTTP_forward: "fst (ProxyHTTP p rw req w) = [ForwardServeHTTP]"
  by (simp add: ProxyHTTP_def return_def)

text \<open>
  C3. The dispatcher runs the tunnel handler exactly when the method string is
  \<^verbatim>\<open>CONNECT\<close>, compared byte for byte; for every other method string it runs the
  forwarding handler. The forwarding call is made if and only if the method differs from
  \<^verbatim>\<open>CONNECT\<close>.
\<close>

theorem ServeHTTP_dispatch:
  "(ServeHTTP p rw req w = ProxyHTTPS p rw req w) = (Method req = ''CONNECT'') \<and>
   (ServeHTTP p rw req w = ProxyHTTP p rw req w) = (Method req \<noteq> ''CONNECT'') \<and>
   (ForwardServeHTTP \<in> set (fst (ServeHTTP p rw req w))) = (Method req \<noteq> ''CONNECT'')"
proof -
  have differ: "ProxyHTTP p rw req w \<noteq> ProxyHTTPS p rw req w"
  proof
    assume "ProxyHTTP p rw req w = ProxyHTTPS p rw req w"
    then have "fst (ProxyHTTPS p rw req w) = [ForwardServeHTTP]"
      using ProxyHTTP_forward [of p rw req w] by simp
    then show False
      using ProxyHTTPS_not_forward [of p rw req w] by simp
  qed
  show ?thesis
  proof (cases "Method req = ''CONNECT''")
    case True
    then show ?thesis
      using differ ProxyHTTPS_not_forward [of p rw req w] by (simp add: ServeHTTP_def)
  next
    case False
    then show ?thesis
      using differ ProxyHTTP_forward [of p rw req w] by (auto simp add: ServeHTTP_def)
  qed
qed

text \<open>
  C3, at concrete requests: \<^verbatim>\<open>CONNECT\<close> runs the tunnel handler; \<^verbatim>\<open>connect\<close>,
  \<^verbatim>\<open>CONNECT\<close> followed by a space, and \<^verbatim>\<open>GET\<close> run the forwarding handler.
\<close>

theorem ServeHTTP_dispatch_witness:
  "ServeHTTP example_proxy (Hijacker None) example_request quiet_world =
     ProxyHTTPS example_proxy (Hijacker None) example_request quiet_world \<and>
   ServeHTTP example_proxy (Hijacker None) (example_request\<lparr>Method := ''connect''\<rparr>) quiet_world =
     ProxyHTTP example_proxy (Hijacker None) (example_request\<lparr>Method := ''connect''\<rparr>) quiet_world \<and>
   ServeHTTP example_proxy (Hijacker None) (example_request\<lparr>Method := ''CONNECT ''\<rparr>) quiet_world =
     ProxyHTTP example_proxy (Hijacker None) (example_request\<lparr>Method := ''CONNECT ''\<rparr>) quiet_world \<and>
   ServeHTTP example_proxy (Hijacker None) (example_request\<lparr>Method := ''GET''\<rparr>) quiet_world =
     ProxyHTTP example_proxy (Hijacker None) (example_request\<lparr>Method := ''GET''\<rparr>) quiet_world"
  using ServeHTTP_dispatch [of example_proxy "Hijacker None" example_request quiet_world]
    ServeHTTP_dispatch [of example_proxy "Hijacker None" "example_request\<lparr>Method := ''connect''\<rparr>" quiet_world]
    ServeHTTP_dispatch [of example_proxy "Hijacker None" "example_request\<lparr>Method := ''CONNECT ''\<rparr>" quiet_world]
    ServeHTTP_dispatch [of example_proxy "Hijacker None" "example_request\<lparr>Method := ''GET''\<rparr>" quiet_world]
  by (simp add: example_request_def)

section \<open>The tunnel\<close>

text \<open>
  C4. In every run of a session in which the hijack, the dial and both
  \<^verbatim>\<open>SetDeadline\<close> calls succeed, exactly one \<^verbatim>\<open>Write\<close> is made; it writes the 19
  bytes \<^verbatim>\<open>HTTP/1.0 200 OK\r\n\r\n\<close> to the client connection, and no \<^verbatim>\<open>io.Copy\<close> is
  called before it, so no relay byte flows before the status line is written.
\<close>

theorem handshake_before_relay:
  assumes "run \<in> session_runs (ProxyHTTPS p rw req w)"
    and "rw = Hijacker None"
    and "Dial_err w = None"
    and "clientConn_SetDeadline_err w = None"
    and "proxyConn_SetDeadline_err w = None"
  shows "filter is_Write run =
           [Write clientConn (''HTTP/1.0 200 OK'' @ [CHR 0x0D, CHR 0x0A, CHR 0x0D, CHR 0x0A])
              (clientConn_Write_err w)] \<and>
         (\<exists>pre post.
            run = pre @ Write clientConn
                    (''HTTP/1.0 200 OK'' @ [CHR 0x0D, CHR 0x0A, CHR 0x0D, CHR 0x0A])
                    (clientConn_Write_err w) # post \<and>
            filter is_Copy pre = [])"
proof (cases "clientConn_Write_err w")
  case None
  then have est: "established rw w"
    using assms by (simp add: established_def)
  from run_established [OF est assms(1)] obtain zs where
    zs: "zs \<in> shuffles
        [Copy proxyConn clientConn, CopyReturn proxyConn clientConn (Copy_to_proxyConn_err w),
         Close proxyConn, Close clientConn]
        [Copy clientConn proxyConn, CopyReturn clientConn proxyConn (Copy_to_clientConn_err w),
         Close clientConn, Close proxyConn]"
    and run: "run = [Hijack None, Dial ''tcp'' (Host req) None,
            SetDeadline clientConn
              (time_Add (Now w) (if Timeout p = 0 then defaultTimeout else Timeout p)) None,
            SetDeadline proxyConn
              (time_Add (Now w) (if Timeout p = 0 then defaultTimeout else Timeout p)) None,
            Write clientConn handshake None, Go] @ zs"
    by blast
  have "filter is_Write zs = []"
    unfolding filter_empty_conv relay_events [OF zs] by simp
  then have first: "filter is_Write run = [Write clientConn handshake (clientConn_Write_err w)]"
    using run None by simp
  have "run = [Hijack None, Dial ''tcp'' (Host req) None,
            SetDeadline clientConn
              (time_Add (Now w) (if Timeout p = 0 then defaultTimeout else Timeout p)) None,
            SetDeadline proxyConn
              (time_Add (Now w) (if Timeout p = 0 then defaultTimeout else Timeout p)) None]
          @ Write clientConn handshake (clientConn_Write_err w) # (Go # zs)"
    using run None by simp
  moreover have "filter is_Copy [Hijack None, Dial ''tcp'' (Host req) None,
            SetDeadline clientConn
              (time_Add (Now w) (if Timeout p = 0 then defaultTimeout else Timeout p)) None,
            SetDeadline proxyConn
              (time_Add (Now w) (if Timeout p = 0 then defaultTimeout else Timeout p)) None] = []"
    by simp
  ultimately have "\<exists>pre post. run = pre @ Write clientConn handshake (clientConn_Write_err w) # post
      \<and> filter is_Copy pre = []"
    by blast
  with first show ?thesis by (simp add: handshake_def)
next
  case (Some err)
  then have run: "run = [Hijack None, Dial ''tcp'' (Host req) None,
            SetDeadline clientConn
              (time_Add (Now w) (if Timeout p = 0 then defaultTimeout else Timeout p)) None,
            SetDeadline proxyConn
              (time_Add (Now w) (if Timeout p = 0 then defaultTimeout else Timeout p)) None]
          @ Write clientConn handshake (clientConn_Write_err w) # [logf p ''http: proxy error: %v'' [err]]"
    using assms by (simp add: ProxyHTTPS_def Let_def return_def session_runs_def logf_def
        split: option.splits)
  have "filter is_Write run = [Write clientConn handshake (clientConn_Write_err w)]"
    unfolding run by (simp add: logf_def split: option.splits)
  moreover have "\<exists>pre post. run = pre @ Write clientConn handshake (clientConn_Write_err w) # post
      \<and> filter is_Copy pre = []"
    using run
    by (intro exI [of _ "[Hijack None, Dial ''tcp'' (Host req) None,
            SetDeadline clientConn
              (time_Add (Now w) (if Timeout p = 0 then defaultTimeout else Timeout p)) None,
            SetDeadline proxyConn
              (time_Add (Now w) (if Timeout p = 0 then defaultTimeout else Timeout p)) None]"]
          exI [of _ "[logf p ''http: proxy error: %v'' [err]]"]) simp
  ultimately show ?thesis by (simp add: handshake_def)
qed

text \<open>
  C4, at the concrete session in which every call succeeds.
\<close>

theorem handshake_before_relay_witness:
  "filter is_Write (sequential_run ''example.org:443'' 300000001000 None None) =
     [Write clientConn (''HTTP/1.0 200 OK'' @ [CHR 0x0D, CHR 0x0A, CHR 0x0D, CHR 0x0A]) None]"
  using handshake_before_relay [OF example_run]
  by (simp add: quiet_world_def)

text \<open>
  C5. In a session whose hijack and dial succeed, \<^verbatim>\<open>SetDeadline\<close> is called on the
  client connection with the instant \<^verbatim>\<open>time.Now()\<close> plus \<^verbatim>\<open>Timeout\<close>, or plus 5
  minutes (300000000000 ns) when \<^verbatim>\<open>Timeout\<close> is zero; when that call returns no error,
  \<^verbatim>\<open>SetDeadline\<close> is called on the upstream connection with the same instant. No
  \<^verbatim>\<open>SetDeadline\<close> call of any run carries another value.
\<close>

theorem deadline_is_now_plus_timeout:
  assumes "run \<in> session_runs (ProxyHTTPS p rw req w)"
  shows "(rw = Hijacker None \<and> Dial_err w = None \<longrightarrow>
            SetDeadline clientConn
              (Now w + (if Timeout p = 0 then 5 * 60 * 1000000000 else sint (Timeout p)))
              (clientConn_SetDeadline_err w) \<in> set run) \<and>
         (rw = Hijacker None \<and> Dial_err w = None \<and> clientConn_SetDeadline_err w = None \<longrightarrow>
            SetDeadline proxyConn
              (Now w + (if Timeout p = 0 then 5 * 60 * 1000000000 else sint (Timeout p)))
              (proxyConn_SetDeadline_err w) \<in> set run) \<and>
         (SetDeadline c t r \<in> set run \<longrightarrow>
            t = Now w + (if Timeout p = 0 then 5 * 60 * 1000000000 else sint (Timeout p))) \<and>
         (Dial n a None \<in> set run \<longrightarrow>
            SetDeadline clientConn
              (Now w + (if Timeout p = 0 then 5 * 60 * 1000000000 else sint (Timeout p)))
              (clientConn_SetDeadline_err w) \<in> set run) \<and>
         (SetDeadline clientConn t' None \<in> set run \<longrightarrow>
            SetDeadline proxyConn t' (proxyConn_SetDeadline_err w) \<in> set run)"
proof -
  have eq: "time_Add (Now w) (if Timeout p = 0 then defaultTimeout else Timeout p) =
        Now w + (if Timeout p = 0 then 5 * 60 * 1000000000 else sint (Timeout p))"
    by (simp add: time_Add_def defaultTimeout_ns)
  note ops = set_run [OF assms]
  have 1: "rw = Hijacker None \<and> Dial_err w = None \<longrightarrow>
            SetDeadline clientConn
              (Now w + (if Timeout p = 0 then 5 * 60 * 1000000000 else sint (Timeout p)))
              (clientConn_SetDeadline_err w) \<in> set run"
    using client_deadline_applied [of rw w p req] unfolding ops eq by simp
  have 2: "rw = Hijacker None \<and> Dial_err w = None \<and> clientConn_SetDeadline_err w = None \<longrightarrow>
            SetDeadline proxyConn
              (Now w + (if Timeout p = 0 then 5 * 60 * 1000000000 else sint (Timeout p)))
              (proxyConn_SetDeadline_err w) \<in> set run"
    using proxy_deadline_applied [of rw w p req] unfolding ops eq by simp
  have 3: "SetDeadline c t r \<in> set run \<longrightarrow>
            t = Now w + (if Timeout p = 0 then 5 * 60 * 1000000000 else sint (Timeout p))"
    using SetDeadline_value [OF assms, of c t r] unfolding eq by blast
  have 4: "Dial n a None \<in> set run \<longrightarrow>
            SetDeadline clientConn
              (Now w + (if Timeout p = 0 then 5 * 60 * 1000000000 else sint (Timeout p)))
              (clientConn_SetDeadline_err w) \<in> set run"
    using client_deadline_set [of n a p rw req w] unfolding ops eq by blast
  have 5: "SetDeadline clientConn t' None \<in> set run \<longrightarrow>
            SetDeadline proxyConn t' (proxyConn_SetDeadline_err w) \<in> set run"
    using proxy_deadline_set [of t' p rw req w] unfolding ops by blast
  show ?thesis
    by (intro conjI) (rule 1, rule 2, rule 3, rule 4, rule 5)
qed

text \<open>
  C5, at the session in which every call succeeds, read at time 1000 with \<^verbatim>\<open>Timeout\<close>
  zero: both connections get the deadline 1000 + 300000000000.
\<close>

theorem deadline_is_now_plus_timeout_witness:
  "sequential_run ''example.org:443'' 300000001000 None None
     \<in> session_runs (ProxyHTTPS example_proxy (Hijacker None) example_request quiet_world) \<and>
   Dial_err quiet_world = None \<and> clientConn_SetDeadline_err quiet_world = None \<and>
   Timeout example_proxy = 0 \<and>
   SetDeadline clientConn (Now quiet_world + 5 * 60 * 1000000000) None \<in>
     set (sequential_run ''example.org:443'' 300000001000 None None) \<and>
   SetDeadline proxyConn (Now quiet_world + 5 * 60 * 1000000000) None \<in>
     set (sequential_run ''example.org:443'' 300000001000 None None)"
proof -
  have w: "Dial_err quiet_world = None" "clientConn_SetDeadline_err quiet_world = None"
    "proxyConn_SetDeadline_err quiet_world = None" "Timeout example_proxy = 0"
    by (simp_all add: quiet_world_def example_proxy_def)
  show ?thesis
    using deadline_is_now_plus_timeout [OF example_run] example_run w
    by simp
qed

text \<open>
  C6. In every run of a session that reaches the relay phase (hijack, dial, both
  \<^verbatim>\<open>SetDeadline\<close> calls and the \<^verbatim>\<open>Write\<close> succeed), each of the two connections goes
  from open to closed exactly once and is closed at the end. Every return of a copy is
  followed by a \<^verbatim>\<open>Close\<close> of both connections, and in each task the two \<^verbatim>\<open>Close\<close>
  calls come directly after the return of that task's copy.
\<close>

theorem relay_closes_each_connection_once:
  assumes "run \<in> session_runs (ProxyHTTPS p rw req w)"
    and "rw = Hijacker None"
    and "Dial_err w = None"
    and "clientConn_SetDeadline_err w = None"
    and "proxyConn_SetDeadline_err w = None"
    and "clientConn_Write_err w = None"
  shows "Go \<in> set run \<and>
         closings clientConn Unopened run = 1 \<and> closings proxyConn Unopened run = 1 \<and>
         conn_state_after clientConn run = Closed \<and> conn_state_after proxyConn run = Closed \<and>
         closes_follow run \<and>
         (\<exists>pre. fst (ProxyHTTPS p rw req w) =
            pre @ [Go, Copy proxyConn clientConn,
                   CopyReturn proxyConn clientConn (Copy_to_proxyConn_err w),
                   Close proxyConn, Close clientConn]) \<and>
         snd (ProxyHTTPS p rw req w) =
           [Copy clientConn proxyConn, CopyReturn clientConn proxyConn (Copy_to_clientConn_err w),
            Close clientConn, Close proxyConn]"
proof -
  have est: "established rw w"
    using assms(2-6) by (simp add: established_def)
  from run_established [OF est assms(1)] obtain zs where
    zs: "zs \<in> shuffles
        [Copy proxyConn clientConn, CopyReturn proxyConn clientConn (Copy_to_proxyConn_err w),
         Close proxyConn, Close clientConn]
        [Copy clientConn proxyConn, CopyReturn clientConn proxyConn (Copy_to_clientConn_err w),
         Close clientConn, Close proxyConn]"
    and run: "run = [Hijack None, Dial ''tcp'' (Host req) None,
            SetDeadline clientConn
              (time_Add (Now w) (if Timeout p = 0 then defaultTimeout else Timeout p)) None,
            SetDeadline proxyConn
              (time_Add (Now w) (if Timeout p = 0 then defaultTimeout else Timeout p)) None,
            Write clientConn handshake None, Go] @ zs"
    by blast
  have go: "Go \<in> set run"
    unfolding run by simp
  have closes: "Close clientConn \<in> set zs" "Close proxyConn \<in> set zs"
    by (simp_all add: relay_events [OF zs])
  have "closes_follow zs"
    using zs by (rule closes_follow_shuffles) simp_all
  then have follow: "closes_follow run"
    unfolding run by simp
  have "closings clientConn Unopened run = closings clientConn Open zs"
    and "closings proxyConn Unopened run = closings proxyConn Open zs"
    and "conn_state_after clientConn run = foldl (conn_step clientConn) Open zs"
    and "conn_state_after proxyConn run = foldl (conn_step proxyConn) Open zs"
    unfolding run by (simp_all add: conn_state_after_def)
  then have states: "closings clientConn Unopened run = 1 \<and> closings proxyConn Unopened run = 1 \<and>
         conn_state_after clientConn run = Closed \<and> conn_state_after proxyConn run = Closed"
    using closes by (simp add: closings_Open foldl_conn_step_Open)
  have calling: "\<exists>pre. fst (ProxyHTTPS p rw req w) =
            pre @ [Go, Copy proxyConn clientConn,
                   CopyReturn proxyConn clientConn (Copy_to_proxyConn_err w),
                   Close proxyConn, Close clientConn]"
    unfolding tasks_established [OF est] fst_conv by (rule exI) (rule refl)
  have spawned: "snd (ProxyHTTPS p rw req w) =
           [Copy clientConn proxyConn, CopyReturn clientConn proxyConn (Copy_to_clientConn_err w),
            Close clientConn, Close proxyConn]"
    unfolding tasks_established [OF est] by simp
  show ?thesis
    using go states follow calling spawned by blast
qed

text \<open>
  C6, at the run of the all-succeeding session in which the calling task finishes first.
\<close>

theorem relay_closes_each_connection_once_witness:
  "sequential_run ''example.org:443'' 300000001000 None None
     \<in> session_runs (ProxyHTTPS example_proxy (Hijacker None) example_request quiet_world) \<and>
   Dial_err quiet_world = None \<and> clientConn_SetDeadline_err quiet_world = None \<and>
   proxyConn_SetDeadline_err quiet_world = None \<and> clientConn_Write_err quiet_world = None \<and>
   closings clientConn Unopened (sequential_run ''example.org:443'' 300000001000 None None) = 1 \<and>
   closings proxyConn Unopened (sequential_run ''example.org:443'' 300000001000 None None) = 1 \<and>
   conn_state_after clientConn (sequential_run ''example.org:443'' 300000001000 None None) = Closed \<and>
   conn_state_after proxyConn (sequential_run ''example.org:443'' 300000001000 None None) = Closed \<and>
   closes_follow (sequential_run ''example.org:443'' 300000001000 None None)"
proof -
  have w: "Dial_err quiet_world = None" "clientConn_SetDeadline_err quiet_world = None"
    "proxyConn_SetDeadline_err quiet_world = None" "clientConn_Write_err quiet_world = None"
    by (simp_all add: quiet_world_def)
  show ?thesis
    using relay_closes_each_connection_once [OF example_run refl w] example_run w by blast
qed

text \<open>
  Each task calls \<^verbatim>\<open>Close\<close> on both connections, so a connection receives two calls in
  every run; the second finds it closed.
\<close>

lemma Close_called_by_both_tasks:
  assumes "run \<in> session_runs (ProxyHTTPS p rw req w)" and "established rw w"
  shows "count_list run (Close clientConn) = 2 \<and> count_list run (Close proxyConn) = 2"
proof -
  from run_established [OF assms(2) assms(1)] obtain zs where
    zs: "zs \<in> shuffles
        [Copy proxyConn clientConn, CopyReturn proxyConn clientConn (Copy_to_proxyConn_err w),
         Close proxyConn, Close clientConn]
        [Copy clientConn proxyConn, CopyReturn clientConn proxyConn (Copy_to_clientConn_err w),
         Close clientConn, Close proxyConn]"
    and run: "run = [Hijack None, Dial ''tcp'' (Host req) None,
            SetDeadline clientConn
              (time_Add (Now w) (if Timeout p = 0 then defaultTimeout else Timeout p)) None,
            SetDeadline proxyConn
              (time_Add (Now w) (if Timeout p = 0 then defaultTimeout else Timeout p)) None,
            Write clientConn handshake None, Go] @ zs"
    by blast
  show ?thesis
    unfolding run by (simp add: count_list_shuffles [OF zs])
qed

text \<open>
  C7, as the specification states it, fails: in this run the copy towards the upstream
  returns the error "write: broken pipe", and nothing is logged.
\<close>

theorem relay_error_not_logged:
  "sequential_run ''example.org:443'' 300000001000 (Some ''write: broken pipe'') None
     \<in> session_runs (ProxyHTTPS example_proxy (Hijacker None) example_request
          (quiet_world\<lparr>Copy_to_proxyConn_err := Some ''write: broken pipe''\<rparr>)) \<and>
   CopyReturn proxyConn clientConn (Some ''write: broken pipe'')
     \<in> set (sequential_run ''example.org:443'' 300000001000 (Some ''write: broken pipe'') None) \<and>
   filter is_log
     (sequential_run ''example.org:443'' 300000001000 (Some ''write: broken pipe'') None) = []"
proof -
  have est: "established (Hijacker None)
      (quiet_world\<lparr>Copy_to_proxyConn_err := Some ''write: broken pipe''\<rparr>)"
    by (simp add: established_def quiet_world_def)
  show ?thesis
    using sequential_run_is_run [OF est, of example_request example_proxy]
    by (simp add: example_request_def example_proxy_def quiet_world_def time_Add_def
      defaultTimeout_ns) (simp add: sequential_run_def)
qed

text \<open>
  C7, amended. When a copy returns an error, the error is dropped without being logged:
  no run of a session in which a copy returned an error holds a log call. No retry is made
  either: such a run holds exactly one \<^verbatim>\<open>net.Dial\<close>, one \<^verbatim>\<open>go\<close> statement and
  two \<^verbatim>\<open>io.Copy\<close> calls (one per direction).
\<close>

theorem relay_error_dropped_silently:
  assumes "run \<in> session_runs (ProxyHTTPS p rw req w)"
    and "CopyReturn d s (Some err) \<in> set run"
  shows "filter is_log run = [] \<and> length (filter is_Dial run) = 1 \<and>
         length (filter is_Copy run) = 2 \<and> length (filter ((=) Go) run) = 1"
proof -
  have est: "established rw w"
    using relay_reached [OF assms(1) assms(2)] by simp
  from run_established [OF est assms(1)] obtain zs where
    zs: "zs \<in> shuffles
        [Copy proxyConn clientConn, CopyReturn proxyConn clientConn (Copy_to_proxyConn_err w),
         Close proxyConn, Close clientConn]
        [Copy clientConn proxyConn, CopyReturn clientConn proxyConn (Copy_to_clientConn_err w),
         Close clientConn, Close proxyConn]"
    and run: "run = [Hijack None, Dial ''tcp'' (Host req) None,
            SetDeadline clientConn
              (time_Add (Now w) (if Timeout p = 0 then defaultTimeout else Timeout p)) None,
            SetDeadline proxyConn
              (time_Add (Now w) (if Timeout p = 0 then defaultTimeout else Timeout p)) None,
            Write clientConn handshake None, Go] @ zs"
    by blast
  have "filter is_log zs = []"
    unfolding filter_empty_conv relay_events [OF zs] by simp
  then show ?thesis
    unfolding run by (simp add: length_filter_shuffles [OF zs])
qed

theorem relay_error_dropped_silently_witness:
  "CopyReturn proxyConn clientConn (Some ''write: broken pipe'')
     \<in> set (sequential_run ''example.org:443'' 300000001000 (Some ''write: broken pipe'') None) \<and>
   length (filter is_Dial
     (sequential_run ''example.org:443'' 300000001000 (Some ''write: broken pipe'') None)) = 1 \<and>
   length (filter is_Copy
     (sequential_run ''example.org:443'' 300000001000 (Some ''write: broken pipe'') None)) = 2"
proof -
  have est: "established (Hijacker None)
      (quiet_world\<lparr>Copy_to_proxyConn_err := Some ''write: broken pipe''\<rparr>)"
    by (simp add: established_def quiet_world_def)
  have r: "sequential_run ''example.org:443'' 300000001000 (Some ''write: broken pipe'') None
     \<in> session_runs (ProxyHTTPS example_proxy (Hijacker None) example_request
          (quiet_world\<lparr>Copy_to_proxyConn_err := Some ''write: broken pipe''\<rparr>))"
    using sequential_run_is_run [OF est, of example_request example_proxy]
    by (simp add: example_request_def example_proxy_def quiet_world_def time_Add_def
      defaultTimeout_ns)
  have e: "CopyReturn proxyConn clientConn (Some ''write: broken pipe'')
     \<in> set (sequential_run ''example.org:443'' 300000001000 (Some ''write: broken pipe'') None)"
    by (simp add: sequential_run_def)
  show ?thesis
    using relay_error_dropped_silently [OF r e] e by simp
qed

text \<open>
  C8. A CONNECT request on a writer that is not an \<^verbatim>\<open>http.Hijacker\<close> has one run: the
  single log call "http server does not support hijacker". Nothing is written to the
  client, nothing is dialed and no task is spawned.
\<close>

theorem ProxyHTTPS_without_Hijacker:
  assumes "Method req = ''CONNECT''"
    and "run \<in> session_runs (ServeHTTP p NoHijacker req w)"
  shows "run = [logf p ''http server does not support hijacker'' []] \<and>
         is_log (logf p ''http server does not support hijacker'' []) \<and>
         filter is_Write run = [] \<and> filter is_Dial run = [] \<and>
         snd (ServeHTTP p NoHijacker req w) = []"
  using assms
  by (auto simp add: ServeHTTP_def ProxyHTTPS_unfold session_runs_def split: option.splits)

theorem ProxyHTTPS_without_Hijacker_witness:
  "[LogPrintf ''http server does not support hijacker'' []]
     \<in> session_runs (ServeHTTP example_proxy NoHijacker example_request quiet_world) \<and>
   filter is_Write [LogPrintf ''http server does not support hijacker'' []] = [] \<and>
   filter is_Dial [LogPrintf ''http server does not support hijacker'' []] = []"
proof -
  have m: "Method example_request = ''CONNECT''"
    by (simp add: example_request_def)
  have r: "[LogPrintf ''http server does not support hijacker'' []]
     \<in> session_runs (ServeHTTP example_proxy NoHijacker example_request quiet_world)"
    by (simp add: ServeHTTP_def ProxyHTTPS_unfold session_runs_def example_request_def
        example_proxy_def)
  show ?thesis
    using ProxyHTTPS_without_Hijacker [OF m r] r by (simp add: logf_def example_proxy_def)
qed

text \<open>
  C10. When \<^verbatim>\<open>Timeout\<close> is negative the 5-minute default is not used: in a session
  whose hijack and dial succeed, \<^verbatim>\<open>SetDeadline\<close> is called on the client connection with
  \<^verbatim>\<open>time.Now()\<close> plus that negative duration, an instant before the reading of the
  clock, and, when that call returns no error, on the upstream connection with the same
  instant. No \<^verbatim>\<open>SetDeadline\<close> call of any run carries another value.
\<close>

theorem negative_Timeout_deadline_in_past:
  assumes "run \<in> session_runs (ProxyHTTPS p rw req w)"
    and "sint (Timeout p) < 0"
  shows "(rw = Hijacker None \<and> Dial_err w = None \<longrightarrow>
            SetDeadline clientConn (Now w + sint (Timeout p)) (clientConn_SetDeadline_err w)
              \<in> set run) \<and>
         (rw = Hijacker None \<and> Dial_err w = None \<and> clientConn_SetDeadline_err w = None \<longrightarrow>
            SetDeadline proxyConn (Now w + sint (Timeout p)) (proxyConn_SetDeadline_err w)
              \<in> set run) \<and>
         Now w + sint (Timeout p) < Now w \<and>
         (SetDeadline c t r \<in> set run \<longrightarrow> t = Now w + sint (Timeout p) \<and> t < Now w) \<and>
         (Dial n a None \<in> set run \<longrightarrow>
            SetDeadline clientConn (Now w + sint (Timeout p)) (clientConn_SetDeadline_err w)
              \<in> set run) \<and>
         (SetDeadline clientConn t' None \<in> set run \<longrightarrow>
            SetDeadline proxyConn t' (proxyConn_SetDeadline_err w) \<in> set run)"
proof -
  have nz: "Timeout p \<noteq> 0"
    using assms(2) by auto
  then have eq: "time_Add (Now w) (if Timeout p = 0 then defaultTimeout else Timeout p) =
        Now w + sint (Timeout p)"
    by (simp add: time_Add_def)
  note ops = set_run [OF assms(1)]
  have 1: "rw = Hijacker None \<and> Dial_err w = None \<longrightarrow>
            SetDeadline clientConn (Now w + sint (Timeout p)) (clientConn_SetDeadline_err w)
              \<in> set run"
    using client_deadline_applied [of rw w p req] unfolding ops eq by simp
  have 2: "rw = Hijacker None \<and> Dial_err w = None \<and> clientConn_SetDeadline_err w = None \<longrightarrow>
            SetDeadline proxyConn (Now w + sint (Timeout p)) (proxyConn_SetDeadline_err w)
              \<in> set run"
    using proxy_deadline_applied [of rw w p req] unfolding ops eq by simp
  have 3: "Now w + sint (Timeout p) < Now w"
    using assms(2) by simp
  have 4: "SetDeadline c t r \<in> set run \<longrightarrow> t = Now w + sint (Timeout p) \<and> t < Now w"
    using SetDeadline_value [OF assms(1), of c t r] 3 unfolding eq by blast
  have 5: "Dial n a None \<in> set run \<longrightarrow>
            SetDeadline clientConn (Now w + sint (Timeout p)) (clientConn_SetDeadline_err w)
              \<in> set run"
    using client_deadline_set [of n a p rw req w] unfolding ops eq by blast
  have 6: "SetDeadline clientConn t' None \<in> set run \<longrightarrow>
            SetDeadline proxyConn t' (proxyConn_SetDeadline_err w) \<in> set run"
    using proxy_deadline_set [of t' p rw req w] unfolding ops by blast
  show ?thesis
    by (intro conjI) (rule 1, rule 2, rule 3, rule 4, rule 5, rule 6)
qed

text \<open>
  C10, at the all-succeeding session with \<^verbatim>\<open>Timeout\<close> of -3000 ns read at time 1000: both
  connections get the deadline -2000.
\<close>

theorem negative_Timeout_deadline_in_past_witness:
  "sequential_run ''example.org:443'' (- 2000) None None
     \<in> session_runs (ProxyHTTPS (example_proxy\<lparr>Timeout := - 3000\<rparr>) (Hijacker None)
          example_request quiet_world) \<and>
   sint (Timeout (example_proxy\<lparr>Timeout := - 3000\<rparr>)) = - 3000 \<and>
   Dial_err quiet_world = None \<and> clientConn_SetDeadline_err quiet_world = None \<and>
   Now quiet_world = 1000 \<and>
   SetDeadline clientConn (- 2000) None \<in>
     set (sequential_run ''example.org:443'' (- 2000) None None) \<and>
   SetDeadline proxyConn (- 2000) None \<in>
     set (sequential_run ''example.org:443'' (- 2000) None None)"
proof -
  have neg: "sint (Timeout (example_proxy\<lparr>Timeout := - 3000\<rparr>)) < 0"
    by simp
  have w: "Dial_err quiet_world = None" "clientConn_SetDeadline_err quiet_world = None"
    "proxyConn_SetDeadline_err quiet_world = None" "Now quiet_world = 1000"
    by (simp_all add: quiet_world_def)
  show ?thesis
    using negative_Timeout_deadline_in_past [OF negative_run neg] negative_run w
    by simp
qed

section \<open>The constructor\<close>




end
